theory Spec2Isabelle
  imports Main "HOL-Library.Word" "HOL-Library.AList"
begin

unbundle bit_operations_syntax

section \<open>Chat2Snack: order ledger and FPGA command protocol\<close>

text \<open>
  The repository holds two variants of the same controller,
  \<^verbatim>\<open>chat2snack_controller.py\<close> (command line; definitions with suffix \<open>_ctl\<close>) and
  \<^verbatim>\<open>app.py\<close> (Streamlit; suffix \<open>_app\<close>), and the hardware test script
  \<^verbatim>\<open>test.py\<close>.  Python integers are unbounded and are modelled by \<open>int\<close>, whose bit
  operations are those of infinite two's complement, as Python's are.  A Python \<open>str\<close> is
  modelled by \<open>string\<close>, every \<open>char\<close> standing for the code point of the same number
  (so only code points below 256 are covered).  Printed text is not modelled; everything
  else a function does (the cart, the bytes written to the serial port, the exceptions
  raised) is.
\<close>

subsection \<open>Python string primitives\<close>

text \<open>\<^verbatim>\<open>str.isspace\<close> on the code points below 256.\<close>

definition isspace :: "char \<Rightarrow> bool" where
  "isspace c \<longleftrightarrow>
     c \<in> set [CHR 0x09, CHR 0x0A, CHR 0x0B, CHR 0x0C, CHR 0x0D, CHR 0x1C, CHR 0x1D,
              CHR 0x1E, CHR 0x1F, CHR 0x20, CHR 0x85, CHR 0xA0]"

text \<open>\<^verbatim>\<open>s.strip(chars)\<close> and \<^verbatim>\<open>s.strip()\<close>: drop from both ends.\<close>

definition strip_with :: "(char \<Rightarrow> bool) \<Rightarrow> string \<Rightarrow> string" where
  "strip_with P s = rev (dropWhile P (rev (dropWhile P s)))"

definition strip :: "string \<Rightarrow> string" where
  "strip s = strip_with isspace s"

definition strip_chars :: "string \<Rightarrow> string \<Rightarrow> string" where
  "strip_chars chars s = strip_with (\<lambda>c. c \<in> set chars) s"

text \<open>\<^verbatim>\<open>str.lower\<close>: the letters A to Z and the upper-case letters of Latin-1.\<close>

definition upper_letters :: string where
  "upper_letters = ''ABCDEFGHIJKLMNOPQRSTUVWXYZ'' @
     [CHR 0xC0, CHR 0xC1, CHR 0xC2, CHR 0xC3, CHR 0xC4, CHR 0xC5, CHR 0xC6, CHR 0xC7,
      CHR 0xC8, CHR 0xC9, CHR 0xCA, CHR 0xCB, CHR 0xCC, CHR 0xCD, CHR 0xCE, CHR 0xCF,
      CHR 0xD0, CHR 0xD1, CHR 0xD2, CHR 0xD3, CHR 0xD4, CHR 0xD5, CHR 0xD6,
      CHR 0xD8, CHR 0xD9, CHR 0xDA, CHR 0xDB, CHR 0xDC, CHR 0xDD, CHR 0xDE]"

definition lower_letters :: string where
  "lower_letters = ''abcdefghijklmnopqrstuvwxyz'' @
     [CHR 0xE0, CHR 0xE1, CHR 0xE2, CHR 0xE3, CHR 0xE4, CHR 0xE5, CHR 0xE6, CHR 0xE7,
      CHR 0xE8, CHR 0xE9, CHR 0xEA, CHR 0xEB, CHR 0xEC, CHR 0xED, CHR 0xEE, CHR 0xEF,
      CHR 0xF0, CHR 0xF1, CHR 0xF2, CHR 0xF3, CHR 0xF4, CHR 0xF5, CHR 0xF6,
      CHR 0xF8, CHR 0xF9, CHR 0xFA, CHR 0xFB, CHR 0xFC, CHR 0xFD, CHR 0xFE]"

definition lower_char :: "char \<Rightarrow> char" where
  "lower_char c = (case map_of (zip upper_letters lower_letters) c of None \<Rightarrow> c | Some l \<Rightarrow> l)"

definition lower :: "string \<Rightarrow> string" where
  "lower s = map lower_char s"

text \<open>\<^verbatim>\<open>s.split()\<close>: the maximal runs of non-space characters, in order.\<close>

fun split_acc :: "string \<Rightarrow> string \<Rightarrow> string list" where
  "split_acc cur [] = (if cur = [] then [] else [cur])"
| "split_acc cur (c # cs) =
     (if isspace c then (if cur = [] then split_acc [] cs else cur # split_acc [] cs)
      else split_acc (cur @ [c]) cs)"

definition split :: "string \<Rightarrow> string list" where
  "split s = split_acc [] s"

text \<open>\<^verbatim>\<open>s.split(sep)\<close> for a separator of one character: empty pieces are kept.\<close>

fun split_on_acc :: "char \<Rightarrow> string \<Rightarrow> string \<Rightarrow> string list" where
  "split_on_acc sep cur [] = [cur]"
| "split_on_acc sep cur (c # cs) =
     (if c = sep then cur # split_on_acc sep [] cs else split_on_acc sep (cur @ [c]) cs)"

definition split_on :: "char \<Rightarrow> string \<Rightarrow> string list" where
  "split_on sep s = split_on_acc sep [] s"

text \<open>
  \<^verbatim>\<open>int(s)\<close>: surrounding white space is dropped, one sign is allowed, then decimal
  digits, single underscores allowed between two digits.  A string of more than 4300
  digits is refused (the interpreter's default limit for the conversion).  \<open>None\<close> stands
  for \<^verbatim>\<open>ValueError\<close>.
\<close>

definition isdigit :: "char \<Rightarrow> bool" where
  "isdigit c \<longleftrightarrow> c \<in> set ''0123456789''"

definition digit_value :: "char \<Rightarrow> int" where
  "digit_value c = (case map_of (zip ''0123456789'' [0, 1, 2, 3, 4, 5, 6, 7, 8, 9]) c of
                      None \<Rightarrow> 0 | Some d \<Rightarrow> d)"

definition digits_value :: "string \<Rightarrow> int" where
  "digits_value ds = foldl (\<lambda>a c. 10 * a + digit_value c) 0 ds"

fun int_body :: "string \<Rightarrow> bool" where
  "int_body [] = False"
| "int_body [c] = isdigit c"
| "int_body (c # d # cs) =
     (isdigit c \<and> (if d = CHR ''_'' then int_body cs else int_body (d # cs)))"

definition int_max_str_digits :: nat where
  "int_max_str_digits = 4300"

definition int_unsigned :: "string \<Rightarrow> int option" where
  "int_unsigned body =
     (if int_body body \<and> length (filter isdigit body) \<le> int_max_str_digits
      then Some (digits_value (filter isdigit body)) else None)"

definition py_int :: "string \<Rightarrow> int option" where
  "py_int s =
     (case strip s of
        [] \<Rightarrow> None
      | c # cs \<Rightarrow>
          if c = CHR ''-'' then map_option uminus (int_unsigned cs)
          else if c = CHR ''+'' then int_unsigned cs
          else int_unsigned (c # cs))"

text \<open>\<^verbatim>\<open>f"{n:016b}"\<close>: binary digits, zero-padded to 16 characters, the sign counted.\<close>

fun bin_digits :: "nat \<Rightarrow> string" where
  "bin_digits n =
     (if n < 2 then [if n = 0 then CHR ''0'' else CHR ''1'']
      else bin_digits (n div 2) @ [if n mod 2 = 0 then CHR ''0'' else CHR ''1''])"

declare bin_digits.simps [simp del]

definition zfill :: "nat \<Rightarrow> string \<Rightarrow> string" where
  "zfill w s = replicate (w - length s) (CHR ''0'') @ s"

definition format_016b :: "int \<Rightarrow> string" where
  "format_016b n =
     (if n < 0 then CHR ''-'' # zfill 15 (bin_digits (nat (- n)))
      else zfill 16 (bin_digits (nat n)))"

subsection \<open>Constants and the cart\<close>

text \<open>
  The cart \<^verbatim>\<open>current_order\<close> is a Python dict: an association list in insertion
  order.  Assigning to a key that is present keeps its place (\<open>AList.update\<close>).
\<close>

type_synonym table = "(string \<times> int) list"

datatype error = TypeError | KeyError | SerialException | OtherException

definition FOOD_BIT_OFFSETS :: "string \<rightharpoonup> nat" where
  "FOOD_BIT_OFFSETS =
     map_of [(''burger'', 0), (''fries'', 3), (''soda'', 6), (''ice_cream'', 9), (''pizza'', 12)]"

definition DISPENSE_BIT_OFFSET :: nat where
  "DISPENSE_BIT_OFFSET = 15"

definition MAX_QTY :: int where
  "MAX_QTY = 7"

definition initial_order :: table where
  "initial_order =
     [(''burger'', 0), (''fries'', 0), (''soda'', 0), (''ice_cream'', 0), (''pizza'', 0)]"

text \<open>\<^verbatim>\<open>d.get(k, 0)\<close>.\<close>

definition get :: "table \<Rightarrow> string \<Rightarrow> int" where
  "get order k = (case map_of order k of None \<Rightarrow> 0 | Some q \<Rightarrow> q)"

text \<open>\<^verbatim>\<open>for food in current_order: current_order[food] = 0\<close>, and the dict
  comprehension \<^verbatim>\<open>{k: 0 for k in current_order}\<close> of app.py.\<close>

definition clear_order :: "table \<Rightarrow> table" where
  "clear_order order = map (\<lambda>(food, qty). (food, 0)) order"

subsection \<open>The encoder \<^verbatim>\<open>generate_fpga_command\<close>\<close>

text \<open>
  chat2snack_controller.py indexes \<^verbatim>\<open>FOOD_BIT_OFFSETS[food]\<close>, which raises
  \<^verbatim>\<open>KeyError\<close> on a key without an offset; app.py skips such a key.
\<close>

fun pack_ctl :: "table \<Rightarrow> int \<Rightarrow> error + int" where
  "pack_ctl [] command = Inr command"
| "pack_ctl ((food, qty) # rest) command =
     (case FOOD_BIT_OFFSETS food of
        None \<Rightarrow> Inl KeyError
      | Some offset \<Rightarrow> pack_ctl rest (command OR push_bit offset (qty AND 7)))"

fun pack_app :: "table \<Rightarrow> int \<Rightarrow> int" where
  "pack_app [] command = command"
| "pack_app ((food, qty) # rest) command =
     (case FOOD_BIT_OFFSETS food of
        None \<Rightarrow> pack_app rest command
      | Some offset \<Rightarrow> pack_app rest (command OR push_bit offset (qty AND 7)))"

definition set_dispense :: "bool \<Rightarrow> int \<Rightarrow> int" where
  "set_dispense dispense_now command =
     (if dispense_now then command OR push_bit DISPENSE_BIT_OFFSET 1 else command)"

definition generate_fpga_command_ctl :: "table \<Rightarrow> bool \<Rightarrow> error + int \<times> string" where
  "generate_fpga_command_ctl order dispense_now =
     (case pack_ctl order 0 of
        Inl e \<Rightarrow> Inl e
      | Inr command \<Rightarrow>
          Inr (set_dispense dispense_now command, format_016b (set_dispense dispense_now command)))"

definition generate_fpga_command_app :: "table \<Rightarrow> bool \<Rightarrow> int \<times> string" where
  "generate_fpga_command_app order dispense_now =
     (let command = set_dispense dispense_now (pack_app order 0)
      in (command, format_016b command))"

text \<open>
  A call that passes the flag by keyword.  The function has the one parameter
  \<^verbatim>\<open>dispense_now\<close>; Python raises \<^verbatim>\<open>TypeError\<close> for any other keyword.
\<close>

definition call_generate_fpga_command_ctl ::
    "string \<Rightarrow> bool \<Rightarrow> table \<Rightarrow> error + int \<times> string" where
  "call_generate_fpga_command_ctl keyword v order =
     (if keyword = ''dispense_now'' then generate_fpga_command_ctl order v else Inl TypeError)"

text \<open>The receiver's reading of a field of three bits, as test.py documents the layout.\<close>

definition decode_field :: "nat \<Rightarrow> int \<Rightarrow> int" where
  "decode_field offset command = drop_bit offset command AND 7"

subsection \<open>The mutator \<^verbatim>\<open>update_order\<close>\<close>

definition clamp_qty :: "int \<Rightarrow> int" where
  "clamp_qty new_qty = (if new_qty > MAX_QTY then MAX_QTY else if new_qty < 0 then 0 else new_qty)"

definition set_clamped :: "string \<Rightarrow> int \<Rightarrow> table \<Rightarrow> table" where
  "set_clamped food_item quantity order =
     AList.update food_item (clamp_qty (get order food_item + quantity)) order"

text \<open>\<^verbatim>\<open>display_current_order\<close> prints, and computes the preview with the encoder.\<close>

definition display_current_order_ctl :: "table \<Rightarrow> error option" where
  "display_current_order_ctl order =
     (case call_generate_fpga_command_ctl ''dispense_now'' False order of
        Inl e \<Rightarrow> Some e | Inr _ \<Rightarrow> None)"

text \<open>The result is the exception that escapes, if any, and the cart as it is left.\<close>

definition update_order_ctl :: "string \<Rightarrow> int \<Rightarrow> table \<Rightarrow> error option \<times> table" where
  "update_order_ctl food_item quantity order =
     (if food_item \<notin> fst ` set order then (None, order)
      else let order' = set_clamped food_item quantity order
           in (display_current_order_ctl order', order'))"

text \<open>app.py returns \<^verbatim>\<open>False\<close> for an item that is not in the cart, else \<^verbatim>\<open>True\<close>.\<close>

definition update_order_app :: "string \<Rightarrow> int \<Rightarrow> table \<Rightarrow> bool \<times> table" where
  "update_order_app food_item quantity order =
     (if food_item \<notin> fst ` set order then (False, order)
      else (True, set_clamped food_item quantity order))"

subsection \<open>The serial port\<close>

text \<open>
  What the port does is outside the program: \<open>port k\<close> is the outcome of the \<open>k\<close>-th
  attempt to open \<^verbatim>\<open>COM3\<close> and write to it.  \<open>Serial_Failure\<close> is a
  \<^verbatim>\<open>serial.SerialException\<close> (port missing, write timeout), \<open>Other_Failure\<close> any
  other exception.  The machine state is the cart, the payloads written so far and the
  number of attempts.
\<close>

datatype port_event = Written | Serial_Failure | Other_Failure

record machine =
  current_order :: table
  written :: "int list list"
  attempts :: nat

text \<open>The argument of \<^verbatim>\<open>bytearray\<close> in \<^verbatim>\<open>send_to_fpga\<close> (both variants).\<close>

definition fpga_payload :: "int \<Rightarrow> int list" where
  "fpga_payload command_int = [drop_bit 8 command_int AND 255, command_int AND 255]"

text \<open>The argument of \<^verbatim>\<open>bytes\<close> in \<^verbatim>\<open>send_16bit_command\<close> of test.py.\<close>

definition data_to_send :: "int \<Rightarrow> int list" where
  "data_to_send command =
     (let low_byte = command AND 255; high_byte = drop_bit 8 command AND 255
      in [low_byte, high_byte])"

definition send_to_fpga_ctl ::
    "(nat \<Rightarrow> port_event) \<Rightarrow> int \<Rightarrow> machine \<Rightarrow> error option \<times> machine" where
  "send_to_fpga_ctl port command_int m =
     (let m' = m\<lparr>attempts := Suc (attempts m)\<rparr>
      in case port (attempts m) of
           Written \<Rightarrow> (None, m'\<lparr>written := written m @ [fpga_payload command_int]\<rparr>)
         | Serial_Failure \<Rightarrow> (None, m')
         | Other_Failure \<Rightarrow> (Some OtherException, m'))"

definition send_to_fpga_app :: "(nat \<Rightarrow> port_event) \<Rightarrow> int \<Rightarrow> machine \<Rightarrow> machine" where
  "send_to_fpga_app port command_int m =
     (let m' = m\<lparr>attempts := Suc (attempts m)\<rparr>
      in case port (attempts m) of
           Written \<Rightarrow> m'\<lparr>written := written m @ [fpga_payload command_int]\<rparr>
         | Serial_Failure \<Rightarrow> m'
         | Other_Failure \<Rightarrow> m')"

text \<open>test.py writes to a port that is already open and catches nothing itself.\<close>

definition send_16bit_command ::
    "(nat \<Rightarrow> port_event) \<Rightarrow> int \<Rightarrow> machine \<Rightarrow> error option \<times> machine" where
  "send_16bit_command port command m =
     (let m' = m\<lparr>attempts := Suc (attempts m)\<rparr>
      in case port (attempts m) of
           Written \<Rightarrow> (None, m'\<lparr>written := written m @ [data_to_send command]\<rparr>)
         | Serial_Failure \<Rightarrow> (Some SerialException, m')
         | Other_Failure \<Rightarrow> (Some OtherException, m'))"

subsection \<open>The dispatch loop \<^verbatim>\<open>process_llm_response\<close>\<close>

definition tokens :: "string \<Rightarrow> string list" where
  "tokens line = split (lower (strip_chars [CHR 0x27, CHR 0x22] (strip line)))"

text \<open>
  The dispense branch of chat2snack_controller.py, with the keyword its call site writes:
  \<^verbatim>\<open>dis1pense_now\<close> in \<^verbatim>\<open>process_llm_response\<close>, \<^verbatim>\<open>dispense_now\<close> in
  \<^verbatim>\<open>main_cli\<close>.
\<close>

definition dispense_ctl ::
    "string \<Rightarrow> (nat \<Rightarrow> port_event) \<Rightarrow> machine \<Rightarrow> error option \<times> machine" where
  "dispense_ctl keyword port m =
     (case call_generate_fpga_command_ctl keyword True (current_order m) of
        Inl e \<Rightarrow> (Some e, m)
      | Inr (final_command, _) \<Rightarrow>
          (case send_to_fpga_ctl port final_command m of
             (Some e, m') \<Rightarrow> (Some e, m')
           | (None, m') \<Rightarrow>
               let m'' = m'\<lparr>current_order := clear_order (current_order m')\<rparr>
               in (display_current_order_ctl (current_order m''), m'')))"

definition process_line_ctl ::
    "(nat \<Rightarrow> port_event) \<Rightarrow> string \<Rightarrow> machine \<Rightarrow> error option \<times> machine" where
  "process_line_ctl port line m =
     (let parts = tokens line
      in if parts = [] then (None, m)
         else let command = hd parts
           in if command = ''dispense'' then dispense_ctl ''dis1pense_now'' port m
              else if command \<in> set [''add'', ''remove''] \<and> length parts = 3 then
                (case py_int (parts ! 2) of
                   None \<Rightarrow> (None, m)
                 | Some qty \<Rightarrow>
                     let item = lower (parts ! 1)
                     in if qty > MAX_QTY then (None, m)
                        else let r = update_order_ctl item
                                       (if command = ''remove'' then - qty else qty)
                                       (current_order m)
                             in (fst r, m\<lparr>current_order := snd r\<rparr>))
              else (None, m))"

fun run_lines_ctl ::
    "(nat \<Rightarrow> port_event) \<Rightarrow> string list \<Rightarrow> machine \<Rightarrow> error option \<times> machine" where
  "run_lines_ctl port [] m = (None, m)"
| "run_lines_ctl port (line # rest) m =
     (case process_line_ctl port line m of
        (Some e, m') \<Rightarrow> (Some e, m')
      | (None, m') \<Rightarrow> run_lines_ctl port rest m')"

definition process_llm_response_ctl ::
    "(nat \<Rightarrow> port_event) \<Rightarrow> string \<Rightarrow> machine \<Rightarrow> error option \<times> machine" where
  "process_llm_response_ctl port llm_output m =
     run_lines_ctl port (split_on (CHR 0x0A) (strip llm_output)) m"

text \<open>
  One round of \<^verbatim>\<open>main_cli\<close> of chat2snack_controller.py (\<^verbatim>\<open>exit\<close> leaves the
  loop and changes nothing): no limit on the quantity, and the keyword spelled as the
  encoder has it.
\<close>

definition main_cli_step ::
    "(nat \<Rightarrow> port_event) \<Rightarrow> string \<Rightarrow> machine \<Rightarrow> error option \<times> machine" where
  "main_cli_step port user_input m =
     (let parts = split (strip (lower user_input))
      in if parts = [] then (None, m)
         else let command = hd parts
           in if command = ''exit'' then (None, m)
              else if command = ''dispense'' then dispense_ctl ''dispense_now'' port m
              else if command \<in> set [''add'', ''remove''] \<and> length parts = 3 then
                (case py_int (parts ! 2) of
                   None \<Rightarrow> (None, m)
                 | Some qty \<Rightarrow>
                     let item = lower (parts ! 1);
                         r = update_order_ctl item
                               (if command = ''remove'' then - qty else qty) (current_order m)
                     in (fst r, m\<lparr>current_order := snd r\<rparr>))
              else (None, m))"

text \<open>app.py: nothing escapes, so the result is the machine alone.\<close>

definition process_line_app :: "(nat \<Rightarrow> port_event) \<Rightarrow> string \<Rightarrow> machine \<Rightarrow> machine" where
  "process_line_app port line m =
     (let parts = tokens line
      in if parts = [] then m
         else let command = hd parts
           in if command = ''dispense'' then
                (let final_command = fst (generate_fpga_command_app (current_order m) True);
                     m' = send_to_fpga_app port final_command m
                 in m'\<lparr>current_order := clear_order (current_order m')\<rparr>)
              else if command \<in> set [''add'', ''remove''] \<and> length parts = 3 then
                (case py_int (parts ! 2) of
                   None \<Rightarrow> m
                 | Some qty \<Rightarrow>
                     let item = lower (parts ! 1);
                         item = (if item = ''icecream'' then ''ice_cream'' else item);
                         qty = (if qty > MAX_QTY then MAX_QTY else qty);
                         qty = (if command = ''remove'' then - qty else qty)
                     in m\<lparr>current_order := snd (update_order_app item qty (current_order m))\<rparr>)
              else m)"

fun run_lines_app :: "(nat \<Rightarrow> port_event) \<Rightarrow> string list \<Rightarrow> machine \<Rightarrow> machine" where
  "run_lines_app port [] m = m"
| "run_lines_app port (line # rest) m = run_lines_app port rest (process_line_app port line m)"

definition process_llm_response_app :: "(nat \<Rightarrow> port_event) \<Rightarrow> string \<Rightarrow> machine \<Rightarrow> machine" where
  "process_llm_response_app port llm_output m =
     run_lines_app port (split_on (CHR 0x0A) (strip llm_output)) m"

subsection \<open>Vocabulary of the statements\<close>

text \<open>The five identifiers, in the order the cart is created with.\<close>

definition item_names :: "string list" where
  "item_names = [''burger'', ''fries'', ''soda'', ''ice_cream'', ''pizza'']"

definition in_range :: "table \<Rightarrow> bool" where
  "in_range order \<longleftrightarrow> list_all (\<lambda>(food, qty). 0 \<le> qty \<and> qty \<le> 7) order"

text \<open>A sequence of calls of the mutator; the controller's stops at an exception.\<close>

fun update_all_ctl :: "(string \<times> int) list \<Rightarrow> table \<Rightarrow> error option \<times> table" where
  "update_all_ctl [] order = (None, order)"
| "update_all_ctl ((food_item, quantity) # ops) order =
     (case update_order_ctl food_item quantity order of
        (Some e, order') \<Rightarrow> (Some e, order')
      | (None, order') \<Rightarrow> update_all_ctl ops order')"

fun update_all_app :: "(string \<times> int) list \<Rightarrow> table \<Rightarrow> table" where
  "update_all_app [] order = order"
| "update_all_app ((food_item, quantity) # ops) order =
     update_all_app ops (snd (update_order_app food_item quantity order))"

definition initial_machine :: machine where
  "initial_machine = \<lparr>current_order = initial_order, written = [], attempts = 0\<rparr>"

text \<open>A port that takes every write, and one that is never there.\<close>

definition port_up :: "nat \<Rightarrow> port_event" where
  "port_up k = Written"

definition port_down :: "nat \<Rightarrow> port_event" where
  "port_down k = Serial_Failure"

text \<open>The cart of the dispense scenario: two pizzas and one soda.\<close>

definition pizza2_soda1 :: table where
  "pizza2_soda1 = [(''burger'', 0), (''fries'', 0), (''soda'', 1), (''ice_cream'', 0), (''pizza'', 2)]"

section \<open>Properties\<close>

subsection \<open>The mutator keeps every quantity in range\<close>

lemma clamp_qty_range: "0 \<le> clamp_qty q \<and> clamp_qty q \<le> 7"
  by (simp add: clamp_qty_def MAX_QTY_def)

lemma in_range_update: "in_range order \<Longrightarrow> 0 \<le> v \<Longrightarrow> v \<le> 7 \<Longrightarrow> in_range (AList.update k v order)"
  by (induction order) (auto simp: in_range_def)

lemma in_range_set_clamped: "in_range order \<Longrightarrow> in_range (set_clamped k q order)"
  unfolding set_clamped_def using clamp_qty_range [of "get order k + q"]
  by (simp add: in_range_update)

lemma in_range_update_order_ctl: "in_range order \<Longrightarrow> in_range (snd (update_order_ctl k q order))"
  by (simp add: update_order_ctl_def Let_def in_range_set_clamped)

lemma in_range_update_order_app: "in_range order \<Longrightarrow> in_range (snd (update_order_app k q order))"
  by (simp add: update_order_app_def in_range_set_clamped)

lemma in_range_update_all_ctl: "in_range order \<Longrightarrow> in_range (snd (update_all_ctl ops order))"
proof (induction ops arbitrary: order)
  case Nil
  then show ?case by simp
next
  case (Cons op ops)
  obtain k q where op: "op = (k, q)" by (cases op)
  obtain e order' where r: "update_order_ctl k q order = (e, order')"
    by (cases "update_order_ctl k q order")
  have "in_range order'"
    using in_range_update_order_ctl [OF Cons.prems, of k q] r by simp
  then show ?case
    using Cons.IH [of order'] op r by (cases e) simp_all
qed

lemma in_range_update_all_app: "in_range order \<Longrightarrow> in_range (update_all_app ops order)"
proof (induction ops arbitrary: order)
  case Nil
  then show ?case by simp
next
  case (Cons op ops)
  obtain k q where op: "op = (k, q)" by (cases op)
  show ?case
    using Cons.IH [OF in_range_update_order_app [OF Cons.prems, of k q]] op by simp
qed

lemma get_update_same: "get (AList.update k v order) k = v"
  by (simp add: get_def update_conv')

lemma get_set_clamped: "get (set_clamped k q (AList.update k v order)) k = clamp_qty (v + q)"
  by (simp add: set_clamped_def get_update_same)

lemma key_in_update: "k \<in> fst ` set (AList.update k v order)"
  by (induction order) auto

text \<open>
  Claim C2.  Start from a cart whose quantities are all in 0..7 and call \<^verbatim>\<open>update_order\<close>
  any number of times, with any items and any deltas: after every call (every prefix
  \<open>take n ops\<close> of the sequence) all quantities are in 0..7 again, in both variants.  In
  particular delta +10 on an item at 5 gives 7 and delta -10 on an item at 2 gives 0.
\<close>

theorem update_order_keeps_range:
  assumes "in_range order"
  shows "in_range (snd (update_all_ctl (take n ops) order))
       \<and> in_range (update_all_app (take n ops) order)
       \<and> get (snd (update_order_ctl item 10 (AList.update item 5 order))) item = 7
       \<and> get (snd (update_order_app item 10 (AList.update item 5 order))) item = 7
       \<and> get (snd (update_order_ctl item (- 10) (AList.update item 2 order))) item = 0
       \<and> get (snd (update_order_app item (- 10) (AList.update item 2 order))) item = 0"
proof -
  have "in_range (snd (update_all_ctl (take n ops) order))"
    using assms by (rule in_range_update_all_ctl)
  moreover have "in_range (update_all_app (take n ops) order)"
    using assms by (rule in_range_update_all_app)
  moreover have "get (snd (update_order_ctl item q (AList.update item v order))) item = clamp_qty (v + q)"
    for q v
    using key_in_update [of item v order]
    by (simp add: update_order_ctl_def Let_def get_set_clamped)
  moreover have "get (snd (update_order_app item q (AList.update item v order))) item = clamp_qty (v + q)"
    for q v
    using key_in_update [of item v order]
    by (simp add: update_order_app_def get_set_clamped)
  ultimately show ?thesis
    by (simp add: clamp_qty_def MAX_QTY_def)
qed

theorem update_order_keeps_range_witness:
  "in_range initial_order
   \<and> in_range (snd (update_all_ctl (take 2 [(''burger'', 10), (''fries'', - 3), (''soda'', 1)]) initial_order))
   \<and> in_range (update_all_app (take 2 [(''burger'', 10), (''fries'', - 3), (''soda'', 1)]) initial_order)
   \<and> get (snd (update_order_ctl ''soda'' 10 (AList.update ''soda'' 5 initial_order))) ''soda'' = 7
   \<and> get (snd (update_order_app ''soda'' (- 10) (AList.update ''soda'' 2 initial_order))) ''soda'' = 0"
proof -
  have h: "in_range initial_order"
    by (simp add: in_range_def initial_order_def)
  show ?thesis
    using h update_order_keeps_range [OF h, of 2 "[(''burger'', 10), (''fries'', - 3), (''soda'', 1)]" "''soda''"]
    by simp
qed

subsection \<open>The mutator touches one entry\<close>

lemma map_of_set_clamped_other:
  "other \<noteq> k \<Longrightarrow> map_of (set_clamped k q order) other = map_of order other"
  by (simp add: set_clamped_def update_conv')

lemma keys_set_clamped:
  "k \<in> fst ` set order \<Longrightarrow> map fst (set_clamped k q order) = map fst order"
  by (simp add: set_clamped_def update_keys)

text \<open>
  Claim C10.  A call of \<^verbatim>\<open>update_order\<close> leaves the quantity of every item other than the
  one it is given as it was, and the keys of the cart and their order too.  On a cart
  with the five identifiers, a call with any other item returns at once (\<^verbatim>\<open>None\<close> in the
  controller, \<^verbatim>\<open>False\<close> in app.py) and the whole cart is unchanged.
\<close>

theorem update_order_frame:
  "(other \<noteq> food_item \<longrightarrow>
      map_of (snd (update_order_ctl food_item quantity order)) other = map_of order other
    \<and> map_of (snd (update_order_app food_item quantity order)) other = map_of order other)
   \<and> map fst (snd (update_order_ctl food_item quantity order)) = map fst order
   \<and> map fst (snd (update_order_app food_item quantity order)) = map fst order
   \<and> (map fst table = item_names \<and> unknown \<notin> set item_names \<longrightarrow>
        update_order_ctl unknown quantity table = (None, table)
      \<and> update_order_app unknown quantity table = (False, table))"
proof -
  have "map_of (snd (update_order_ctl food_item quantity order)) other = map_of order other"
    if "other \<noteq> food_item"
    using that by (simp add: update_order_ctl_def Let_def map_of_set_clamped_other)
  moreover have "map_of (snd (update_order_app food_item quantity order)) other = map_of order other"
    if "other \<noteq> food_item"
    using that by (simp add: update_order_app_def map_of_set_clamped_other)
  moreover have "map fst (snd (update_order_ctl food_item quantity order)) = map fst order"
    by (simp add: update_order_ctl_def Let_def keys_set_clamped)
  moreover have "map fst (snd (update_order_app food_item quantity order)) = map fst order"
    by (simp add: update_order_app_def keys_set_clamped)
  moreover have "update_order_ctl unknown quantity table = (None, table)
      \<and> update_order_app unknown quantity table = (False, table)"
    if "map fst table = item_names" "unknown \<notin> set item_names"
  proof -
    have "fst ` set table = set item_names"
      using that(1) by (metis set_map)
    then show ?thesis
      using that(2) by (simp add: update_order_ctl_def update_order_app_def)
  qed
  ultimately show ?thesis by blast
qed

theorem update_order_frame_witness:
  "''fries'' \<noteq> ''burger''
   \<and> map_of (snd (update_order_ctl ''burger'' 3 initial_order)) ''fries'' = map_of initial_order ''fries''
   \<and> map_of (snd (update_order_app ''burger'' 3 initial_order)) ''fries'' = map_of initial_order ''fries''
   \<and> map fst initial_order = item_names \<and> ''banana'' \<notin> set item_names
   \<and> update_order_ctl ''banana'' 3 initial_order = (None, initial_order)
   \<and> update_order_app ''banana'' 3 initial_order = (False, initial_order)"
proof -
  have h: "map fst initial_order = item_names \<and> ''banana'' \<notin> set item_names"
    by (simp add: initial_order_def item_names_def)
  show ?thesis
    using h update_order_frame [of "''fries''" "''burger''" 3 initial_order initial_order "''banana''"]
    by simp
qed

subsection \<open>The command word has 16 bits\<close>

lemma offset_cases:
  "FOOD_BIT_OFFSETS food = Some offset \<Longrightarrow> offset \<in> {0, 3, 6, 9, 12}"
  by (auto simp: FOOD_BIT_OFFSETS_def split: if_splits)

lemma and7_bounds: "0 \<le> (q::int) AND 7 \<and> q AND 7 \<le> 7"
  by (simp add: AND_upper2)

lemma field_fits:
  assumes "0 \<le> c" "c < 2 ^ 15" "FOOD_BIT_OFFSETS food = Some offset"
  shows "0 \<le> c OR push_bit offset (q AND 7) \<and> c OR push_bit offset (q AND (7::int)) < 2 ^ 15"
proof -
  have f: "0 \<le> push_bit offset (q AND 7) \<and> push_bit offset (q AND 7) < (2::int) ^ 15"
    using offset_cases [OF assms(3)] and7_bounds [of q]
    by (auto simp: push_bit_eq_mult)
  then have "c OR push_bit offset (q AND 7) < 2 ^ 15"
    using assms(1,2) by (intro OR_upper) simp_all
  then show ?thesis using assms(1) f by simp
qed

lemma pack_app_fits:
  "0 \<le> c \<Longrightarrow> c < 2 ^ 15 \<Longrightarrow> 0 \<le> pack_app order c \<and> pack_app order c < 2 ^ 15"
proof (induction order arbitrary: c)
  case Nil
  then show ?case by simp
next
  case (Cons entry order)
  obtain food qty where entry: "entry = (food, qty)" by (cases entry)
  show ?case
  proof (cases "FOOD_BIT_OFFSETS food")
    case None
    then show ?thesis using Cons entry by simp
  next
    case (Some offset)
    have "0 \<le> c OR push_bit offset (qty AND 7) \<and> c OR push_bit offset (qty AND 7) < 2 ^ 15"
      using Cons.prems Some by (rule field_fits)
    then show ?thesis using Cons.IH [of "c OR push_bit offset (qty AND 7)"] entry Some by simp
  qed
qed

lemma pack_ctl_app:
  "fst ` set order \<subseteq> set item_names \<Longrightarrow> pack_ctl order c = Inr (pack_app order c)"
proof (induction order arbitrary: c)
  case Nil
  then show ?case by simp
next
  case (Cons entry order)
  obtain food qty where entry: "entry = (food, qty)" by (cases entry)
  have "food \<in> set item_names" using Cons.prems entry by simp
  then obtain offset where "FOOD_BIT_OFFSETS food = Some offset"
    by (auto simp: item_names_def FOOD_BIT_OFFSETS_def)
  then show ?case using Cons entry by simp
qed

lemma pack_ctl_KeyError:
  "\<not> fst ` set order \<subseteq> set item_names \<Longrightarrow> pack_ctl order c = Inl KeyError"
proof (induction order arbitrary: c)
  case Nil
  then show ?case by simp
next
  case (Cons entry order)
  obtain food qty where entry: "entry = (food, qty)" by (cases entry)
  show ?case
  proof (cases "FOOD_BIT_OFFSETS food")
    case None
    then show ?thesis using entry by simp
  next
    case (Some offset)
    then have "food \<in> set item_names"
      by (auto simp: item_names_def FOOD_BIT_OFFSETS_def split: if_splits)
    then have "\<not> fst ` set order \<subseteq> set item_names"
      using Cons.prems entry by simp
    then show ?thesis using Cons.IH entry Some by simp
  qed
qed

lemma set_dispense_fits:
  assumes "0 \<le> c" "c < 2 ^ 15"
  shows "0 \<le> set_dispense d c \<and> set_dispense d c < 2 ^ 16"
proof (cases d)
  case True
  have "c OR 2 ^ 15 < 2 ^ 16"
    using assms by (intro OR_upper) simp_all
  then show ?thesis
    using assms True by (simp add: set_dispense_def DISPENSE_BIT_OFFSET_def)
next
  case False
  then show ?thesis using assms by (simp add: set_dispense_def)
qed

lemma length_bin_digits: "n < 2 ^ k \<Longrightarrow> 0 < k \<Longrightarrow> length (bin_digits n) \<le> k"
proof (induction n arbitrary: k rule: bin_digits.induct)
  case (1 n)
  show ?case
  proof (cases "n < 2")
    case True
    then show ?thesis using "1.prems" by (simp add: bin_digits.simps [of n])
  next
    case False
    then obtain j where k: "k = Suc j" "0 < j"
      using "1.prems" by (cases k; cases "k - 1") auto
    have "n div 2 < 2 ^ j"
      using "1.prems" k by (simp add: less_mult_imp_div_less mult.commute)
    then have "length (bin_digits (n div 2)) \<le> j"
      using "1.IH" False k by simp
    then show ?thesis
      using False k by (simp add: bin_digits.simps [of n])
  qed
qed

lemma length_format_016b: "0 \<le> c \<Longrightarrow> c < 2 ^ 16 \<Longrightarrow> length (format_016b c) = 16"
proof -
  assume c: "0 \<le> c" "c < 2 ^ 16"
  then have "nat c < 2 ^ 16" by (simp add: nat_less_iff)
  then have "length (bin_digits (nat c)) \<le> 16"
    by (rule length_bin_digits) simp
  then show ?thesis using c by (simp add: format_016b_def zfill_def)
qed

text \<open>
  Claim C9.  For every cart, whatever integers it holds, and every dispense flag, the
  command of app.py's encoder is in 0..65535 and its binary rendering has 16 characters.
  The controller's encoder raises \<^verbatim>\<open>KeyError\<close> exactly when the cart has a key without
  an offset (never the case for a cart with the five identifiers), and otherwise returns
  a command in 0..65535 with a rendering of 16 characters.
\<close>

theorem command_fits_16_bits:
  "0 \<le> fst (generate_fpga_command_app order dispense_now)
   \<and> fst (generate_fpga_command_app order dispense_now) < 2 ^ 16
   \<and> length (snd (generate_fpga_command_app order dispense_now)) = 16
   \<and> (case generate_fpga_command_ctl order dispense_now of
        Inl e \<Rightarrow> e = KeyError \<and> \<not> fst ` set order \<subseteq> set item_names
      | Inr (command, binary) \<Rightarrow>
          0 \<le> command \<and> command < 2 ^ 16 \<and> length binary = 16
          \<and> fst ` set order \<subseteq> set item_names)"
proof -
  have fits: "0 \<le> pack_app order 0 \<and> pack_app order 0 < 2 ^ 15"
    by (rule pack_app_fits) simp_all
  have b: "0 \<le> set_dispense dispense_now (pack_app order 0)
         \<and> set_dispense dispense_now (pack_app order 0) < 2 ^ 16"
    using fits set_dispense_fits [of "pack_app order 0" dispense_now] by blast
  then have l: "length (format_016b (set_dispense dispense_now (pack_app order 0))) = 16"
    by (simp add: length_format_016b)
  have app: "0 \<le> fst (generate_fpga_command_app order dispense_now)
   \<and> fst (generate_fpga_command_app order dispense_now) < 2 ^ 16
   \<and> length (snd (generate_fpga_command_app order dispense_now)) = 16"
    using b l by (simp add: generate_fpga_command_app_def Let_def)
  have ctl: "(case generate_fpga_command_ctl order dispense_now of
        Inl e \<Rightarrow> e = KeyError \<and> \<not> fst ` set order \<subseteq> set item_names
      | Inr (command, binary) \<Rightarrow>
          0 \<le> command \<and> command < 2 ^ 16 \<and> length binary = 16
          \<and> fst ` set order \<subseteq> set item_names)"
  proof (cases "fst ` set order \<subseteq> set item_names")
    case True
    then show ?thesis
      using b l by (simp add: generate_fpga_command_ctl_def pack_ctl_app)
  next
    case False
    then show ?thesis
      by (simp add: generate_fpga_command_ctl_def pack_ctl_KeyError)
  qed
  show ?thesis using app ctl by blast
qed

theorem command_fits_16_bits_witness:
  "fst (generate_fpga_command_app [(''burger'', 9), (''fries'', - 3), (''soda'', 64)] True) = 32809
   \<and> fst (generate_fpga_command_app [(''burger'', 9), (''fries'', - 3), (''soda'', 64)] True) < 2 ^ 16
   \<and> length (snd (generate_fpga_command_app [(''burger'', 9), (''fries'', - 3), (''soda'', 64)] True)) = 16
   \<and> generate_fpga_command_ctl [(''burger'', 9), (''fries'', - 3), (''soda'', 64)] True
       = Inr (32809, ''1000000000101001'')"
  using command_fits_16_bits [of "[(''burger'', 9), (''fries'', - 3), (''soda'', 64)]" True]
  by (simp add: generate_fpga_command_app_def generate_fpga_command_ctl_def FOOD_BIT_OFFSETS_def
      set_dispense_def DISPENSE_BIT_OFFSET_def format_016b_def zfill_def bin_digits.simps)

subsection \<open>Encoding and decoding\<close>

lemma and7_take_bit: "(q::int) AND 7 = take_bit 3 q"
  using take_bit_eq_mask [of 3 q] by (simp add: mask_eq_exp_minus_1)

lemma five_entries:
  assumes "map fst order = item_names"
  obtains b f s i p where
    "order = [(''burger'', b), (''fries'', f), (''soda'', s), (''ice_cream'', i), (''pizza'', p)]"
proof -
  from assms obtain e1 e2 e3 e4 e5 where o: "order = [e1, e2, e3, e4, e5]"
    and k: "fst e1 = ''burger''" "fst e2 = ''fries''" "fst e3 = ''soda''"
      "fst e4 = ''ice_cream''" "fst e5 = ''pizza''"
    unfolding item_names_def map_eq_Cons_conv by blast
  have "e1 = (''burger'', snd e1)" "e2 = (''fries'', snd e2)" "e3 = (''soda'', snd e3)"
    "e4 = (''ice_cream'', snd e4)" "e5 = (''pizza'', snd e5)"
    using k by (simp_all add: prod_eq_iff)
  then have "order = [(''burger'', snd e1), (''fries'', snd e2), (''soda'', snd e3),
                 (''ice_cream'', snd e4), (''pizza'', snd e5)]"
    unfolding o by simp
  then show ?thesis by (rule that)
qed

lemma bit_field:
  "bit (c OR push_bit k ((q::int) AND 7)) n \<longleftrightarrow> bit c n \<or> (k \<le> n \<and> n < k + 3 \<and> bit q (n - k))"
  unfolding and7_take_bit by (auto simp add: bit_simps)

lemma bit_decode_field:
  "bit (decode_field offset c) n \<longleftrightarrow> n < 3 \<and> bit c (offset + n)"
  unfolding decode_field_def and7_take_bit by (auto simp add: bit_simps)

lemma small_bit: "0 \<le> q \<Longrightarrow> q \<le> 7 \<Longrightarrow> bit (q::int) n \<Longrightarrow> n < 3"
proof -
  assume "0 \<le> q" "q \<le> 7" and b: "bit q n"
  then have "take_bit 3 q = q" by (simp add: take_bit_int_eq_self)
  then have "bit (take_bit 3 q) n" using b by simp
  then show ?thesis by (simp add: bit_take_bit_iff)
qed

lemma bit_set_dispense:
  "bit (set_dispense d c) n \<longleftrightarrow> bit c n \<or> (d \<and> n = 15)"
proof (cases d)
  case True
  have "set_dispense True c = c OR 2 ^ 15"
    by (simp add: set_dispense_def DISPENSE_BIT_OFFSET_def)
  moreover have "bit (c OR 2 ^ 15) n \<longleftrightarrow> bit c n \<or> n = 15"
    by (simp only: bit_or_iff bit_exp_iff) simp
  ultimately show ?thesis using True by simp
next
  case False
  then show ?thesis by (simp add: set_dispense_def)
qed

lemma bit_pack_five:
  "bit (pack_app [(''burger'', b), (''fries'', f), (''soda'', s), (''ice_cream'', i), (''pizza'', p)] 0) n
   \<longleftrightarrow> (n < 3 \<and> bit b n) \<or> (3 \<le> n \<and> n < 6 \<and> bit f (n - 3)) \<or> (6 \<le> n \<and> n < 9 \<and> bit s (n - 6))
     \<or> (9 \<le> n \<and> n < 12 \<and> bit i (n - 9)) \<or> (12 \<le> n \<and> n < 15 \<and> bit p (n - 12))"
proof -
  have "pack_app [(''burger'', b), (''fries'', f), (''soda'', s), (''ice_cream'', i), (''pizza'', p)] 0
      = ((((0 OR push_bit 0 (b AND 7)) OR push_bit 3 (f AND 7)) OR push_bit 6 (s AND 7))
          OR push_bit 9 (i AND 7)) OR push_bit 12 (p AND 7)"
    by (simp add: FOOD_BIT_OFFSETS_def)
  then show ?thesis
    by (simp only: bit_field) simp
qed

text \<open>
  Claim C3.  For a cart with the five identifiers and all quantities in 0..7, and any
  dispense flag \<open>d\<close>: reading the fields at bits 0-2, 3-5, 6-8, 9-11 and 12-14 of the
  command gives back the quantities of burger, fries, soda, ice_cream and pizza; bit 15
  is set exactly when \<open>d\<close> is; and the commands for \<open>d\<close> true and false agree on every bit
  other than bit 15.  Both encoders return the same pair here.
\<close>

theorem encode_decode:
  assumes "map fst order = item_names" and "in_range order"
  shows "generate_fpga_command_ctl order d = Inr (generate_fpga_command_app order d)
       \<and> decode_field 0 (fst (generate_fpga_command_app order d)) = get order ''burger''
       \<and> decode_field 3 (fst (generate_fpga_command_app order d)) = get order ''fries''
       \<and> decode_field 6 (fst (generate_fpga_command_app order d)) = get order ''soda''
       \<and> decode_field 9 (fst (generate_fpga_command_app order d)) = get order ''ice_cream''
       \<and> decode_field 12 (fst (generate_fpga_command_app order d)) = get order ''pizza''
       \<and> (bit (fst (generate_fpga_command_app order d)) 15 \<longleftrightarrow> d)
       \<and> (n \<noteq> 15 \<longrightarrow> bit (fst (generate_fpga_command_app order True)) n
                      = bit (fst (generate_fpga_command_app order False)) n)"
proof -
  obtain b f s i p where
    order: "order = [(''burger'', b), (''fries'', f), (''soda'', s), (''ice_cream'', i), (''pizza'', p)]"
    using assms(1) by (rule five_entries)
  have r: "0 \<le> b" "b \<le> 7" "0 \<le> f" "f \<le> 7" "0 \<le> s" "s \<le> 7" "0 \<le> i" "i \<le> 7" "0 \<le> p" "p \<le> 7"
    using assms(2) by (simp_all add: order in_range_def)
  have sb: "bit b k \<Longrightarrow> k < 3" "bit f k \<Longrightarrow> k < 3" "bit s k \<Longrightarrow> k < 3"
    "bit i k \<Longrightarrow> k < 3" "bit p k \<Longrightarrow> k < 3" for k
    using r small_bit by blast+
  define c where "c = fst (generate_fpga_command_app order d)"
  have c: "c = set_dispense d (pack_app order 0)"
    by (simp add: c_def generate_fpga_command_app_def Let_def)
  have bc: "bit c k \<longleftrightarrow> (k < 3 \<and> bit b k) \<or> (3 \<le> k \<and> k < 6 \<and> bit f (k - 3))
      \<or> (6 \<le> k \<and> k < 9 \<and> bit s (k - 6)) \<or> (9 \<le> k \<and> k < 12 \<and> bit i (k - 9))
      \<or> (12 \<le> k \<and> k < 15 \<and> bit p (k - 12)) \<or> (d \<and> k = 15)" for k
    unfolding c bit_set_dispense order bit_pack_five by simp
  have g: "get order ''burger'' = b" "get order ''fries'' = f" "get order ''soda'' = s"
    "get order ''ice_cream'' = i" "get order ''pizza'' = p"
    by (simp_all add: get_def order)
  have "decode_field 0 c = b"
    by (rule bit_eqI) (use sb in \<open>auto simp add: bit_decode_field bc\<close>)
  moreover have "decode_field 3 c = f"
    by (rule bit_eqI) (use sb in \<open>auto simp add: bit_decode_field bc\<close>)
  moreover have "decode_field 6 c = s"
    by (rule bit_eqI) (use sb in \<open>auto simp add: bit_decode_field bc\<close>)
  moreover have "decode_field 9 c = i"
    by (rule bit_eqI) (use sb in \<open>auto simp add: bit_decode_field bc\<close>)
  moreover have "decode_field 12 c = p"
    by (rule bit_eqI) (use sb in \<open>auto simp add: bit_decode_field bc\<close>)
  moreover have "bit c 15 \<longleftrightarrow> d"
    by (simp add: bc)
  moreover have "bit (fst (generate_fpga_command_app order True)) n
      = bit (fst (generate_fpga_command_app order False)) n" if "n \<noteq> 15"
    using that by (simp add: generate_fpga_command_app_def Let_def bit_set_dispense)
  moreover have "generate_fpga_command_ctl order d = Inr (generate_fpga_command_app order d)"
    by (simp add: order generate_fpga_command_ctl_def generate_fpga_command_app_def
        FOOD_BIT_OFFSETS_def Let_def)
  ultimately show ?thesis
    unfolding g c_def by blast
qed

theorem encode_decode_witness:
  "map fst [(''burger'', 1), (''fries'', 2), (''soda'', 3), (''ice_cream'', 4), (''pizza'', 5 :: int)]
     = item_names
   \<and> in_range [(''burger'', 1), (''fries'', 2), (''soda'', 3), (''ice_cream'', 4), (''pizza'', 5)]
   \<and> decode_field 3 (fst (generate_fpga_command_app
        [(''burger'', 1), (''fries'', 2), (''soda'', 3), (''ice_cream'', 4), (''pizza'', 5)] True)) = 2
   \<and> decode_field 12 (fst (generate_fpga_command_app
        [(''burger'', 1), (''fries'', 2), (''soda'', 3), (''ice_cream'', 4), (''pizza'', 5)] True)) = 5
   \<and> bit (fst (generate_fpga_command_app
        [(''burger'', 1), (''fries'', 2), (''soda'', 3), (''ice_cream'', 4), (''pizza'', 5)] True)) 15"
proof -
  have h1: "map fst [(''burger'', 1), (''fries'', 2), (''soda'', 3), (''ice_cream'', 4),
      (''pizza'', 5 :: int)] = item_names"
    by (simp add: item_names_def)
  have h2: "in_range [(''burger'', 1), (''fries'', 2), (''soda'', 3), (''ice_cream'', 4), (''pizza'', 5)]"
    by (simp add: in_range_def)
  show ?thesis
    using h1 h2 encode_decode [OF h1 h2, of True 3]
    by (simp add: get_def)
qed

subsection \<open>The order of the two bytes on the wire\<close>

lemma fpga_payload_reversed: "fpga_payload command = rev (data_to_send command)"
  by (simp add: fpga_payload_def data_to_send_def)

text \<open>
  Claim C1 (the code departs from it).  The command 0x8001 (one burger, dispense) goes
  through \<^verbatim>\<open>send_to_fpga\<close> of both variants as the bytes 0x80, 0x01: high byte first.
  \<^verbatim>\<open>send_16bit_command\<close> of test.py, documented as low byte first, writes 0x01, 0x80
  for the same command.
\<close>

theorem send_to_fpga_high_byte_first:
  "written (snd (send_to_fpga_ctl port_up 0x8001 initial_machine)) = [[0x80, 0x01]]
   \<and> written (send_to_fpga_app port_up 0x8001 initial_machine) = [[0x80, 0x01]]
   \<and> written (snd (send_16bit_command port_up 0x8001 initial_machine)) = [[0x01, 0x80]]
   \<and> fst (generate_fpga_command_app (AList.update ''burger'' 1 initial_order) True) = 0x8001"
  by (simp add: send_to_fpga_ctl_def send_to_fpga_app_def send_16bit_command_def port_up_def
      initial_machine_def fpga_payload_def data_to_send_def generate_fpga_command_app_def
      initial_order_def FOOD_BIT_OFFSETS_def set_dispense_def DISPENSE_BIT_OFFSET_def)

subsection \<open>Reading a command line\<close>

text \<open>
  A line \<^verbatim>\<open>add <item> <qty>\<close> or \<^verbatim>\<open>remove <item> <qty>\<close>, with one of the five
  identifiers and a quantity written in decimal digits with or without a minus sign,
  survives the stripping and the lower-casing as it is and splits into its three words.
\<close>

lemma strip_with_id:
  assumes "s \<noteq> []" "\<not> P (hd s)" "\<not> P (last s)"
  shows "strip_with P s = s"
proof -
  have 1: "dropWhile P s = s"
    using assms(1,2) by (cases s) simp_all
  have "rev s \<noteq> []" "\<not> P (hd (rev s))"
    using assms(1,3) by (simp_all add: hd_rev)
  then have 2: "dropWhile P (rev s) = rev s"
    by (cases "rev s") simp_all
  show ?thesis
    by (simp add: strip_with_def 1 2)
qed

lemma split_acc_token:
  "\<forall>x\<in>set tok. \<not> isspace x \<Longrightarrow> split_acc cur (tok @ rest) = split_acc (cur @ tok) rest"
  by (induction tok arbitrary: cur) simp_all

lemma split_three:
  assumes "a \<noteq> []" "b \<noteq> []" "c \<noteq> []"
    and "\<forall>x\<in>set a. \<not> isspace x" "\<forall>x\<in>set b. \<not> isspace x" "\<forall>x\<in>set c. \<not> isspace x"
  shows "split (a @ '' '' @ b @ '' '' @ c) = [a, b, c]"
proof -
  have sp: "isspace (CHR '' '')" by (simp add: isspace_def)
  have "split (a @ '' '' @ b @ '' '' @ c) = split_acc a (CHR '' '' # b @ '' '' @ c)"
    using split_acc_token [OF assms(4), of "[]" "'' '' @ b @ '' '' @ c"] by (simp add: split_def)
  also have "\<dots> = a # split_acc [] (b @ '' '' @ c)"
    using assms(1) sp by simp
  also have "split_acc [] (b @ '' '' @ c) = split_acc b (CHR '' '' # c)"
    using split_acc_token [OF assms(5), of "[]" "'' '' @ c"] by simp
  also have "\<dots> = b # split_acc [] c"
    using assms(2) sp by simp
  also have "split_acc [] c = [c]"
    using split_acc_token [OF assms(6), of "[]" "[]"] assms(3) by simp
  finally show ?thesis .
qed

lemma split_on_acc_none: "sep \<notin> set s \<Longrightarrow> split_on_acc sep cur s = [cur @ s]"
  by (induction s arbitrary: cur) auto

lemma isdigit_plain:
  assumes "isdigit x"
  shows "\<not> isspace x" "lower_char x = x" "x \<noteq> CHR 0x27" "x \<noteq> CHR 0x22" "x \<noteq> CHR ''-''"
    "x \<noteq> CHR ''+''" "x \<noteq> CHR ''_''" "x \<noteq> CHR 0x0A" "0 \<le> digit_value x"
  using assms unfolding isdigit_def
  by (elim set_ConsD [elim_format] disjE;
      simp add: isspace_def lower_char_def upper_letters_def lower_letters_def digit_value_def)+

lemma int_body_digits: "list_all isdigit s \<Longrightarrow> s \<noteq> [] \<Longrightarrow> int_body s"
proof (induction s rule: int_body.induct)
  case 1
  then show ?case by simp
next
  case (2 c)
  then show ?case by simp
next
  case (3 c d cs)
  then show ?case using isdigit_plain(7) [of d] by simp
qed

lemma filter_digits: "list_all isdigit s \<Longrightarrow> filter isdigit s = s"
  by (induction s) simp_all

lemma int_unsigned_digits:
  assumes "ds \<noteq> []" "list_all isdigit ds" "length ds \<le> 4300"
  shows "int_unsigned ds = Some (digits_value ds)"
  using assms
  by (simp add: int_unsigned_def int_body_digits filter_digits int_max_str_digits_def)

lemma digits_ends:
  assumes "ds \<noteq> []" "list_all isdigit ds"
  shows "isdigit (hd ds)" "isdigit (last ds)"
  using assms by (simp_all add: list_all_iff)

lemma py_int_digits:
  assumes "ds \<noteq> []" "list_all isdigit ds" "length ds \<le> 4300"
  shows "py_int ds = Some (digits_value ds)"
proof -
  have "strip ds = ds"
    unfolding strip_def
    using assms(1) digits_ends [OF assms(1,2)] by (intro strip_with_id) (simp_all add: isdigit_plain)
  moreover obtain x xs where ds: "ds = x # xs"
    using assms(1) by (cases ds) auto
  moreover have "x \<noteq> CHR ''-''" "x \<noteq> CHR ''+''"
    using digits_ends(1) [OF assms(1,2)] ds by (simp_all add: isdigit_plain)
  ultimately show ?thesis
    using int_unsigned_digits [OF assms] by (simp add: py_int_def)
qed

lemma py_int_minus_digits:
  assumes "ds \<noteq> []" "list_all isdigit ds" "length ds \<le> 4300"
  shows "py_int (''-'' @ ds) = Some (- digits_value ds)"
proof -
  have "strip (''-'' @ ds) = ''-'' @ ds"
    unfolding strip_def
    using assms(1) digits_ends [OF assms(1,2)]
    by (intro strip_with_id) (simp_all add: isdigit_plain, simp add: isspace_def)
  then show ?thesis
    using int_unsigned_digits [OF assms] by (simp add: py_int_def)
qed

lemma digits_value_nonneg_aux:
  "list_all isdigit ds \<Longrightarrow> 0 \<le> a \<Longrightarrow> 0 \<le> foldl (\<lambda>a c. 10 * a + digit_value c) a ds"
  by (induction ds arbitrary: a) (simp_all add: isdigit_plain)

lemma digits_value_nonneg: "list_all isdigit ds \<Longrightarrow> 0 \<le> digits_value ds"
  by (simp add: digits_value_def digits_value_nonneg_aux)

lemma word_plain:
  assumes "w \<in> set (''add'' # ''remove'' # item_names)"
  shows "w \<noteq> []" "\<forall>x\<in>set w. \<not> isspace x" "lower w = w" "\<not> isspace (hd w)"
    "hd w \<notin> set [CHR 0x27, CHR 0x22]" "CHR 0x0A \<notin> set w" "w \<noteq> ''dispense''" "w \<noteq> ''icecream''"
  using assms unfolding item_names_def
  by (elim set_ConsD [elim_format] disjE;
      simp add: isspace_def lower_def lower_char_def upper_letters_def lower_letters_def)+

lemma quantity_plain:
  assumes "q \<noteq> []" "\<forall>x\<in>set q. isdigit x \<or> x = CHR ''-''"
  shows "\<forall>x\<in>set q. \<not> isspace x" "lower q = q" "\<not> isspace (last q)"
    "last q \<notin> set [CHR 0x27, CHR 0x22]" "CHR 0x0A \<notin> set q"
proof -
  have m: "\<not> isspace (CHR ''-'')" "lower_char (CHR ''-'') = CHR ''-''"
    by (simp_all add: isspace_def lower_char_def upper_letters_def lower_letters_def)
  show 1: "\<forall>x\<in>set q. \<not> isspace x"
    using assms(2) m(1) isdigit_plain(1) by blast
  have "\<forall>x\<in>set q. lower_char x = x"
    using assms(2) m(2) isdigit_plain(2) by blast
  then show "lower q = q"
    by (simp add: lower_def map_idI)
  have l: "last q \<in> set q" using assms(1) by simp
  show "\<not> isspace (last q)" using 1 l by blast
  have "\<forall>x\<in>set q. x \<noteq> CHR 0x27 \<and> x \<noteq> CHR 0x22 \<and> x \<noteq> CHR 0x0A"
    using assms(2) isdigit_plain(3,4,8) by fastforce
  then show "last q \<notin> set [CHR 0x27, CHR 0x22]" "CHR 0x0A \<notin> set q"
    using l by auto
qed

lemma lower_append: "lower (a @ b) = lower a @ lower b"
  by (simp add: lower_def)

lemma command_line:
  assumes "cmd \<in> set [''add'', ''remove'']" "item \<in> set item_names"
    and "q \<noteq> []" "\<forall>x\<in>set q. isdigit x \<or> x = CHR ''-''"
  shows "tokens (cmd @ '' '' @ item @ '' '' @ q) = [cmd, item, q]"
    and "split_on (CHR 0x0A) (strip (cmd @ '' '' @ item @ '' '' @ q)) = [cmd @ '' '' @ item @ '' '' @ q]"
proof -
  let ?line = "cmd @ '' '' @ item @ '' '' @ q"
  have c: "cmd \<in> set (''add'' # ''remove'' # item_names)" and i: "item \<in> set (''add'' # ''remove'' # item_names)"
    using assms(1,2) by auto
  note cp = word_plain [OF c] and ip = word_plain [OF i] and qp = quantity_plain [OF assms(3,4)]
  have hd: "hd ?line = hd cmd" using cp(1) by simp
  have last: "last ?line = last q" using assms(3) by simp
  have ne: "?line \<noteq> []" using cp(1) by simp
  have e1: "\<not> isspace (hd ?line)" "\<not> isspace (last ?line)"
    using cp(4) qp(3) by (simp_all only: hd last not_False_eq_True)
  have e2: "\<not> hd ?line \<in> set [CHR 0x27, CHR 0x22]" "\<not> last ?line \<in> set [CHR 0x27, CHR 0x22]"
    using cp(5) qp(4) by (simp_all only: hd last not_False_eq_True)
  have s1: "strip ?line = ?line"
    unfolding strip_def by (rule strip_with_id [OF ne e1])
  have s2: "strip_chars [CHR 0x27, CHR 0x22] ?line = ?line"
    unfolding strip_chars_def by (rule strip_with_id [OF ne e2])
  have s3: "lower ?line = ?line"
    using cp(3) ip(3) qp(2) by (simp add: lower_append) (simp add: lower_def lower_char_def upper_letters_def lower_letters_def)
  have s4: "split ?line = [cmd, item, q]"
    using cp(1,2) ip(1,2) assms(3) qp(1) by (intro split_three)
  show "tokens ?line = [cmd, item, q]"
    by (simp only: tokens_def s1 s2 s3 s4)
  have "CHR 0x0A \<notin> set ?line"
    using cp(6) ip(6) qp(5) by simp
  then have "split_on_acc (CHR 0x0A) [] ?line = [[] @ ?line]"
    by (rule split_on_acc_none)
  then show "split_on (CHR 0x0A) (strip ?line) = [?line]"
    by (simp only: s1 split_on_def append_Nil)
qed

lemma get_in_range: "in_range order \<Longrightarrow> 0 \<le> get order k \<and> get order k \<le> 7"
proof -
  assume r: "in_range order"
  show ?thesis
  proof (cases "map_of order k")
    case None
    then show ?thesis by (simp add: get_def)
  next
    case (Some v)
    then have "(k, v) \<in> set order" by (rule map_of_SomeD)
    then show ?thesis using r Some by (auto simp: in_range_def list_all_iff get_def)
  qed
qed

lemma display_ok: "map fst order = item_names \<Longrightarrow> display_current_order_ctl order = None"
proof -
  assume "map fst order = item_names"
  then have "fst ` set order \<subseteq> set item_names" by (metis set_map subset_refl)
  then show ?thesis
    by (simp add: display_current_order_ctl_def call_generate_fpga_command_ctl_def
        generate_fpga_command_ctl_def pack_ctl_app)
qed

lemma update_order_ctl_known:
  assumes "map fst order = item_names" "item \<in> set item_names"
  shows "update_order_ctl item delta order = (None, set_clamped item delta order)"
proof -
  have k: "item \<in> fst ` set order" using assms by (metis set_map)
  then have "map fst (set_clamped item delta order) = item_names"
    using assms(1) by (simp add: keys_set_clamped)
  then show ?thesis using k by (simp add: update_order_ctl_def Let_def display_ok)
qed

lemma update_order_app_known:
  assumes "map fst order = item_names" "item \<in> set item_names"
  shows "update_order_app item delta order = (True, set_clamped item delta order)"
proof -
  have k: "item \<in> fst ` set order" using assms by (metis set_map)
  then show ?thesis by (simp add: update_order_app_def)
qed

lemma process_line_app_command:
  assumes "tokens line = [cmd, item, q]" "cmd \<in> set [''add'', ''remove'']"
    and "item \<in> set item_names" "py_int q = Some v" "map fst (current_order m) = item_names"
  shows "process_line_app port line m =
     m\<lparr>current_order :=
         set_clamped item
           (if cmd = ''remove'' then - (if v > 7 then 7 else v) else (if v > 7 then 7 else v))
           (current_order m)\<rparr>"
proof -
  have c: "cmd \<in> set (''add'' # ''remove'' # item_names)" and i: "item \<in> set (''add'' # ''remove'' # item_names)"
    using assms(2,3) by auto
  note cp = word_plain [OF c] and ip = word_plain [OF i]
  have u: "snd (update_order_app item delta (current_order m)) = set_clamped item delta (current_order m)"
    for delta
    using update_order_app_known [OF assms(5,3)] by simp
  show ?thesis
    using assms(2) cp(7) ip(3,8)
    by (simp add: process_line_app_def assms(1,4) Let_def MAX_QTY_def u)
qed

lemma process_line_ctl_command:
  assumes "tokens line = [cmd, item, q]" "cmd \<in> set [''add'', ''remove'']"
    and "item \<in> set item_names" "py_int q = Some v" "map fst (current_order m) = item_names"
  shows "process_line_ctl port line m =
     (if v > 7 then (None, m)
      else (None, m\<lparr>current_order :=
                       set_clamped item (if cmd = ''remove'' then - v else v) (current_order m)\<rparr>))"
proof -
  have c: "cmd \<in> set (''add'' # ''remove'' # item_names)" and i: "item \<in> set (''add'' # ''remove'' # item_names)"
    using assms(2,3) by auto
  note cp = word_plain [OF c] and ip = word_plain [OF i]
  have u: "update_order_ctl item delta (current_order m) = (None, set_clamped item delta (current_order m))"
    for delta
    by (rule update_order_ctl_known [OF assms(5,3)])
  show ?thesis
    using assms(2) cp(7) ip(3)
    by (simp add: process_line_ctl_def assms(1,4) Let_def MAX_QTY_def u)
qed

lemma run_single_app:
  "split_on (CHR 0x0A) (strip line) = [line] \<Longrightarrow>
   process_llm_response_app port line m = process_line_app port line m"
  by (simp add: process_llm_response_app_def)

lemma run_single_ctl:
  "split_on (CHR 0x0A) (strip line) = [line] \<Longrightarrow>
   process_llm_response_ctl port line m = process_line_ctl port line m"
  by (cases "process_line_ctl port line m"; cases "fst (process_line_ctl port line m)")
     (simp_all add: process_llm_response_ctl_def)

lemmas string_defs = strip_def strip_with_def strip_chars_def isspace_def split_on_def split_def
  lower_def lower_char_def upper_letters_def lower_letters_def tokens_def
lemmas int_defs = py_int_def int_unsigned_def isdigit_def digits_value_def digit_value_def
  int_max_str_digits_def
lemmas enc_defs = generate_fpga_command_app_def generate_fpga_command_ctl_def
  call_generate_fpga_command_ctl_def FOOD_BIT_OFFSETS_def set_dispense_def DISPENSE_BIT_OFFSET_def
  format_016b_def zfill_def bin_digits.simps display_current_order_ctl_def
lemmas upd_defs = update_order_ctl_def update_order_app_def set_clamped_def get_def clamp_qty_def
  MAX_QTY_def clear_order_def
lemmas run_defs = process_llm_response_app_def process_llm_response_ctl_def process_line_app_def
  process_line_ctl_def dispense_ctl_def send_to_fpga_ctl_def send_to_fpga_app_def fpga_payload_def
  initial_machine_def initial_order_def port_up_def port_down_def main_cli_step_def

subsection \<open>A written quantity above the maximum\<close>

text \<open>
  Claim C5, as amended.  Take a line \<^verbatim>\<open>add <item> <qty>\<close> with one of the five
  identifiers and a quantity written in at most 4300 decimal digits whose value exceeds
  7, and a cart with the five identifiers and quantities in 0..7.  app.py clamps the
  request to 7 and applies it, so the item ends at 7.  \<^verbatim>\<open>process_llm_response\<close> of
  chat2snack_controller.py ignores the line: no exception, and the machine is as before.
\<close>

theorem request_above_max:
  assumes "item \<in> set item_names"
    and "map fst (current_order m) = item_names" and "in_range (current_order m)"
    and "ds \<noteq> []" and "list_all isdigit ds" and "length ds \<le> 4300"
    and "digits_value ds > 7"
  shows "process_llm_response_app port (''add '' @ item @ '' '' @ ds) m
           = m\<lparr>current_order := AList.update item 7 (current_order m)\<rparr>
       \<and> process_llm_response_ctl port (''add '' @ item @ '' '' @ ds) m = (None, m)"
proof -
  have q: "\<forall>x\<in>set ds. isdigit x \<or> x = CHR ''-''"
    using assms(5) by (simp add: list_all_iff)
  have cmd: "''add'' \<in> set [''add'', ''remove'']" by simp
  have t: "tokens (''add'' @ '' '' @ item @ '' '' @ ds) = [''add'', item, ds]"
    and l: "split_on (CHR 0x0A) (strip (''add'' @ '' '' @ item @ '' '' @ ds))
              = [''add'' @ '' '' @ item @ '' '' @ ds]"
    using command_line [OF cmd assms(1,4) q] by blast+
  have v: "py_int ds = Some (digits_value ds)"
    by (rule py_int_digits [OF assms(4,5,6)])
  have g: "clamp_qty (get (current_order m) item + 7) = 7"
    using get_in_range [OF assms(3), of item] by (simp add: clamp_qty_def MAX_QTY_def)
  have "process_line_app port (''add'' @ '' '' @ item @ '' '' @ ds) m
      = m\<lparr>current_order := AList.update item 7 (current_order m)\<rparr>"
    unfolding process_line_app_command [OF t cmd assms(1) v assms(2)]
    using assms(7) by (simp add: set_clamped_def g)
  moreover have "process_line_ctl port (''add'' @ '' '' @ item @ '' '' @ ds) m = (None, m)"
    unfolding process_line_ctl_command [OF t cmd assms(1) v assms(2)]
    using assms(7) by simp
  ultimately show ?thesis
    using run_single_app [OF l, of port m] run_single_ctl [OF l, of port m] by simp
qed

theorem request_above_max_witness:
  "''burger'' \<in> set item_names \<and> map fst (current_order initial_machine) = item_names
   \<and> in_range (current_order initial_machine) \<and> list_all isdigit ''12'' \<and> digits_value ''12'' = 12
   \<and> process_llm_response_app port_down ''add burger 12'' initial_machine
        = initial_machine\<lparr>current_order := AList.update ''burger'' 7 initial_order\<rparr>
   \<and> process_llm_response_ctl port_down ''add burger 12'' initial_machine = (None, initial_machine)"
proof -
  have h1: "''burger'' \<in> set item_names" by (simp add: item_names_def)
  have h2: "map fst (current_order initial_machine) = item_names"
    by (simp add: initial_machine_def initial_order_def item_names_def)
  have h3: "in_range (current_order initial_machine)"
    by (simp add: initial_machine_def initial_order_def in_range_def)
  have h4: "''12'' \<noteq> []" by simp
  have h5: "list_all isdigit ''12''" by (simp add: isdigit_def)
  have h6: "length ''12'' \<le> 4300" by simp
  have h7: "digits_value ''12'' > 7" by (simp add: digits_value_def digit_value_def)
  have v: "digits_value ''12'' = 12" by (simp add: digits_value_def digit_value_def)
  show ?thesis
    using h1 h2 h3 h5 v request_above_max [OF h1 h2 h3 h4 h5 h6 h7, of port_down]
    by (simp add: initial_machine_def)
qed

text \<open>
  Claim C5 as stated fails on the controller: \<^verbatim>\<open>add burger 8\<close> on the empty cart leaves
  burger at 0, although the mutator called with delta 8 would set it to 7.
\<close>

theorem over_max_line_ignored_by_controller:
  "process_llm_response_ctl port_up ''add burger 8'' initial_machine = (None, initial_machine)
   \<and> get (current_order initial_machine) ''burger'' = 0
   \<and> get (snd (update_order_ctl ''burger'' 8 initial_order)) ''burger'' = 7"
  by (simp add: string_defs int_defs enc_defs upd_defs run_defs)

subsection \<open>A quantity written with a minus sign\<close>

text \<open>
  Claim C6, as amended.  Take a line \<^verbatim>\<open>add <item> -<digits>\<close> or
  \<^verbatim>\<open>remove <item> -<digits>\<close> with one of the five identifiers and at most 4300
  digits, on a cart with the five identifiers.  Both variants accept it: \<^verbatim>\<open>int\<close> reads
  the signed literal, \<^verbatim>\<open>add\<close> calls the mutator with minus the written amount and
  \<^verbatim>\<open>remove\<close> with plus the written amount, and the mutator clamps the result.
\<close>

theorem negative_quantity_applied:
  assumes "item \<in> set item_names" and "map fst (current_order m) = item_names"
    and "ds \<noteq> []" and "list_all isdigit ds" and "length ds \<le> 4300"
  shows "process_llm_response_app port (''add '' @ item @ '' -'' @ ds) m
           = m\<lparr>current_order := set_clamped item (- digits_value ds) (current_order m)\<rparr>
       \<and> process_llm_response_ctl port (''add '' @ item @ '' -'' @ ds) m
           = (None, m\<lparr>current_order := set_clamped item (- digits_value ds) (current_order m)\<rparr>)
       \<and> process_llm_response_app port (''remove '' @ item @ '' -'' @ ds) m
           = m\<lparr>current_order := set_clamped item (digits_value ds) (current_order m)\<rparr>
       \<and> process_llm_response_ctl port (''remove '' @ item @ '' -'' @ ds) m
           = (None, m\<lparr>current_order := set_clamped item (digits_value ds) (current_order m)\<rparr>)"
proof -
  have q: "\<forall>x\<in>set (''-'' @ ds). isdigit x \<or> x = CHR ''-''"
    using assms(4) by (simp add: list_all_iff)
  have ne: "''-'' @ ds \<noteq> []" by simp
  have v: "py_int (''-'' @ ds) = Some (- digits_value ds)"
    by (rule py_int_minus_digits [OF assms(3,4,5)])
  have n: "\<not> - digits_value ds > 7"
    using digits_value_nonneg [OF assms(4)] by simp
  have add: "process_llm_response_app port (cmd @ '' '' @ item @ '' '' @ ''-'' @ ds) m
           = m\<lparr>current_order := set_clamped item
                 (if cmd = ''remove'' then digits_value ds else - digits_value ds) (current_order m)\<rparr>
       \<and> process_llm_response_ctl port (cmd @ '' '' @ item @ '' '' @ ''-'' @ ds) m
           = (None, m\<lparr>current_order := set_clamped item
                 (if cmd = ''remove'' then digits_value ds else - digits_value ds) (current_order m)\<rparr>)"
    if cmd: "cmd \<in> set [''add'', ''remove'']" for cmd
  proof -
    have t: "tokens (cmd @ '' '' @ item @ '' '' @ ''-'' @ ds) = [cmd, item, ''-'' @ ds]"
      and l: "split_on (CHR 0x0A) (strip (cmd @ '' '' @ item @ '' '' @ ''-'' @ ds))
              = [cmd @ '' '' @ item @ '' '' @ ''-'' @ ds]"
      using command_line [OF cmd assms(1) ne q] by blast+
    show ?thesis
      using n
      by (simp only: run_single_app [OF l] run_single_ctl [OF l]
          process_line_app_command [OF t cmd assms(1) v assms(2)]
          process_line_ctl_command [OF t cmd assms(1) v assms(2)]) simp
  qed
  show ?thesis
    using add [of "''add''"] add [of "''remove''"] by simp
qed

theorem negative_quantity_applied_witness:
  "''burger'' \<in> set item_names \<and> map fst (current_order initial_machine) = item_names
   \<and> list_all isdigit ''2'' \<and> digits_value ''2'' = 2
   \<and> process_llm_response_app port_down ''remove burger -2'' initial_machine
        = initial_machine\<lparr>current_order := AList.update ''burger'' 2 initial_order\<rparr>
   \<and> process_llm_response_ctl port_down ''add burger -2'' initial_machine = (None, initial_machine)"
proof -
  have h1: "''burger'' \<in> set item_names" by (simp add: item_names_def)
  have h2: "map fst (current_order initial_machine) = item_names"
    by (simp add: initial_machine_def initial_order_def item_names_def)
  have h3: "''2'' \<noteq> []" by simp
  have h4: "list_all isdigit ''2''" by (simp add: isdigit_def)
  have h5: "length ''2'' \<le> 4300" by simp
  have v: "digits_value ''2'' = 2" by (simp add: digits_value_def digit_value_def)
  show ?thesis
    using h1 h2 h4 v negative_quantity_applied [OF h1 h2 h3 h4 h5, of port_down]
    by (simp add: initial_machine_def initial_order_def upd_defs)
qed

text \<open>
  Claim C6 as stated fails in both variants: \<^verbatim>\<open>remove burger -2\<close> on the empty cart
  puts burger at 2.
\<close>

theorem negative_quantity_mutates:
  "get (current_order (process_llm_response_app port_up ''remove burger -2'' initial_machine)) ''burger'' = 2
   \<and> get (current_order (snd (process_llm_response_ctl port_up ''remove burger -2'' initial_machine))) ''burger'' = 2
   \<and> get (current_order initial_machine) ''burger'' = 0"
  by (simp add: string_defs int_defs enc_defs upd_defs run_defs)

subsection \<open>Dispensing\<close>

lemma dispense_resets_app:
  "current_order (process_llm_response_app port ''dispense'' m) = clear_order (current_order m)"
  by (cases "port (attempts m)")
     (simp_all add: string_defs process_llm_response_app_def process_line_app_def send_to_fpga_app_def)

text \<open>
  Claim C4, as amended.  In app.py the line \<^verbatim>\<open>dispense\<close> on the cart with two pizzas
  and one soda calls the encoder with the flag set, which gives the command 41024 and the
  string 1010000001000000 (bit 15, pizza 010 at bits 12-14, soda 001 at bits 6-8); the
  bytes of the command are written if the port takes them, and whatever the port does
  every quantity is zero afterwards.
\<close>

theorem dispense_pizza2_soda1:
  "generate_fpga_command_app pizza2_soda1 True = (41024, ''1010000001000000'')
   \<and> current_order (process_llm_response_app port ''dispense''
        (initial_machine\<lparr>current_order := pizza2_soda1\<rparr>)) = initial_order
   \<and> written (process_llm_response_app port ''dispense''
        (initial_machine\<lparr>current_order := pizza2_soda1\<rparr>))
       = (if port 0 = Written then [[160, 64]] else [])"
  by (cases "port 0")
     (simp_all add: string_defs enc_defs upd_defs process_llm_response_app_def process_line_app_def
        send_to_fpga_app_def fpga_payload_def initial_machine_def initial_order_def pizza2_soda1_def)

text \<open>
  Claim C4 as stated names the string 1000001001000000, which is not what either encoder
  produces for this cart.
\<close>

theorem dispense_binary_string_differs:
  "generate_fpga_command_app pizza2_soda1 True = (41024, ''1010000001000000'')
   \<and> generate_fpga_command_ctl pizza2_soda1 True = Inr (41024, ''1010000001000000'')
   \<and> ''1010000001000000'' \<noteq> ''1000001001000000''"
  by (simp add: enc_defs pizza2_soda1_def)

text \<open>
  Claim C7 (the controller departs from it).  \<^verbatim>\<open>process_llm_response\<close> of
  chat2snack_controller.py has no alias: on \<^verbatim>\<open>add icecream 3\<close> the item
  \<^verbatim>\<open>icecream\<close> is not in the cart and ice_cream stays at 0.  app.py rewrites the alias
  and sets ice_cream to 3.
\<close>

theorem controller_alias_unknown:
  "process_llm_response_ctl port_down ''add icecream 3'' initial_machine = (None, initial_machine)
   \<and> get (current_order initial_machine) ''ice_cream'' = 0
   \<and> get (current_order (process_llm_response_app port_down ''add icecream 3'' initial_machine))
        ''ice_cream'' = 3"
  by (simp add: string_defs int_defs enc_defs upd_defs run_defs)

text \<open>
  Claim C8 (the controller departs from it).  In \<^verbatim>\<open>process_llm_response\<close> of
  chat2snack_controller.py the dispense branch calls the encoder with the keyword
  \<^verbatim>\<open>dis1pense_now\<close>, so the call raises \<^verbatim>\<open>TypeError\<close>: the block
  \<^verbatim>\<open>add soda 2 / dispense / add soda 1\<close> stops at its second line with soda at 2, nothing
  sent and nothing reset.  app.py ends the same block with soda at 1 on a port that is
  down, and \<^verbatim>\<open>main_cli\<close> of the controller, which spells the keyword right, resets the
  cart on the same port.
\<close>

theorem controller_block_stops_at_dispense:
  "process_llm_response_ctl port_down
      (''add soda 2'' @ [CHR 0x0A] @ ''dispense'' @ [CHR 0x0A] @ ''add soda 1'') initial_machine
     = (Some TypeError,
        \<lparr>current_order = AList.update ''soda'' 2 initial_order, written = [], attempts = 0\<rparr>)
   \<and> process_llm_response_app port_down
      (''add soda 2'' @ [CHR 0x0A] @ ''dispense'' @ [CHR 0x0A] @ ''add soda 1'') initial_machine
     = \<lparr>current_order = AList.update ''soda'' 1 initial_order, written = [], attempts = 1\<rparr>
   \<and> main_cli_step port_down ''dispense''
        \<lparr>current_order = AList.update ''soda'' 2 initial_order, written = [], attempts = 0\<rparr>
     = (None, \<lparr>current_order = initial_order, written = [], attempts = 1\<rparr>)"
  by (simp add: string_defs int_defs enc_defs upd_defs run_defs)


end
